theory Spec2Isabelle
  imports
    Main
    "HOL-Library.Sublist"
    "HOL-Library.Char_ord"
    "HOL-Library.List_Lexorder"
    "HOL-Library.Word"
begin

section \<open>Values, errors and results\<close>

text \<open>
  The object store of \<^verbatim>\<open>src/objectstore.py\<close> is Python: its methods return values of
  any type and raise exceptions. A returned value is a \<open>pyval\<close>, an exception is an
  \<open>error\<close>, and a method that touches a storage medium takes the state of the world
  and returns the outcome together with the state it leaves behind.
\<close>

type_synonym bytes = "8 word list"

datatype error =
    NotImplementedError
  | AssertionError string
  | TypeError
  | KeyError
  | AttributeError
  | MediumError string
    \<comment> \<open>an exception of a collaborator (boto3, s3fs, os, shutil), passed through unchanged\<close>

datatype handle = Handle string string
  \<comment> \<open>an open file object: the file it was opened on and the mode\<close>

datatype pyval =
    PNone
  | PBool bool
  | PStr string
  | PBytes bytes
  | PList "string list"
  | PHandle handle

type_synonym ('a, 'w) outcome = "(error + 'a) \<times> 'w"

fun truthy :: "pyval \<Rightarrow> bool" where
  "truthy PNone = False"
| "truthy (PBool b) = b"
| "truthy (PStr s) = (s \<noteq> [])"
| "truthy (PBytes b) = (b \<noteq> [])"
| "truthy (PList xs) = (xs \<noteq> [])"
| "truthy (PHandle h) = True"

definition and_then ::
  "('a, 'w) outcome \<Rightarrow> ('a \<Rightarrow> 'w \<Rightarrow> ('b, 'w) outcome) \<Rightarrow> ('b, 'w) outcome" where
  "and_then r k = (case r of (Inl e, w) \<Rightarrow> (Inl e, w) | (Inr v, w) \<Rightarrow> k v w)"

section \<open>Strings\<close>

fun startswith :: "string \<Rightarrow> string \<Rightarrow> bool" where
  "startswith s [] = True"
| "startswith [] (c # cs) = False"
| "startswith (x # xs) (c # cs) = (x = c \<and> startswith xs cs)"

definition endswith :: "string \<Rightarrow> string \<Rightarrow> bool" where
  "endswith s suff = startswith (rev s) (rev suff)"

fun split_on :: "char \<Rightarrow> string \<Rightarrow> string list" where
  "split_on sep [] = [[]]"
| "split_on sep (x # xs) =
     (if x = sep then [] # split_on sep xs
      else (case split_on sep xs of
              [] \<Rightarrow> [[x]]
            | part # parts \<Rightarrow> (x # part) # parts))"

fun join_with :: "string \<Rightarrow> string list \<Rightarrow> string" where
  "join_with sep [] = []"
| "join_with sep [x] = x"
| "join_with sep (x # y # ys) = x @ sep @ join_with sep (y # ys)"

section \<open>The interface\<close>

record S3Query =
  query_prefix :: "string option"
  query_recursive :: "bool option"

type_synonym ListQuery = S3Query

text \<open>
  \<^verbatim>\<open>class ObjectStore\<close>: the methods a backend overrides. A backend object is the record
  of its methods over the world \<open>'w\<close> its medium lives in.
\<close>

record 'w ObjectStore =
  get_object :: "string \<Rightarrow> 'w \<Rightarrow> (pyval, 'w) outcome"
  put_object :: "string \<Rightarrow> bytes \<Rightarrow> 'w \<Rightarrow> (pyval, 'w) outcome"
  ls :: "string \<Rightarrow> ListQuery option \<Rightarrow> 'w \<Rightarrow> (pyval, 'w) outcome"
  rm :: "string \<Rightarrow> bool \<Rightarrow> 'w \<Rightarrow> (pyval, 'w) outcome"
  exists :: "string \<Rightarrow> 'w \<Rightarrow> (pyval, 'w) outcome"
  open_file :: "string \<Rightarrow> string \<Rightarrow> 'w \<Rightarrow> (pyval, 'w) outcome"
  path_join :: "string \<Rightarrow> string list \<Rightarrow> 'w \<Rightarrow> (pyval, 'w) outcome"

text \<open>
  \<^verbatim>\<open>ObjectStore.exists_list\<close>, the one method with a default body:
  \<^verbatim>\<open>return [p for p in paths if self.exists(p)]\<close>. The comprehension calls \<open>exists\<close> on
  each path in turn, keeps the path when the answer is truthy, and stops at the first
  exception.
\<close>

fun exists_list_loop :: "'w ObjectStore \<Rightarrow> string list \<Rightarrow> 'w \<Rightarrow> (string list, 'w) outcome" where
  "exists_list_loop fs [] w = (Inr [], w)"
| "exists_list_loop fs (p # ps) w =
     and_then (exists fs p w) (\<lambda>v w1.
       and_then (exists_list_loop fs ps w1) (\<lambda>found w2.
         (Inr (if truthy v then p # found else found), w2)))"

definition exists_list :: "'w ObjectStore \<Rightarrow> string list \<Rightarrow> 'w \<Rightarrow> (pyval, 'w) outcome" where
  "exists_list fs paths w = and_then (exists_list_loop fs paths w) (\<lambda>found w1. (Inr (PList found), w1))"

section \<open>The cloud backend\<close>

text \<open>
  \<^verbatim>\<open>S3ObjectStore\<close> owns two collaborators, the boto3 client \<^verbatim>\<open>self._s3\<close> and the
  s3fs file system \<^verbatim>\<open>self._s3fs\<close>. They are not part of the repository: the backend
  takes them as a record of the calls it makes.
\<close>

record ListObjectsV2 =
  IsTruncated :: bool
  Contents :: "string list option"        \<comment> \<open>the \<^verbatim>\<open>Key\<close> of each entry, when the field is present\<close>
  CommonPrefixes :: "string list option"  \<comment> \<open>the \<^verbatim>\<open>Prefix\<close> of each entry, when present\<close>

record 'w S3Clients =
  s3fs_exists :: "string \<Rightarrow> 'w \<Rightarrow> (bool, 'w) outcome"
  s3fs_ls :: "string \<Rightarrow> 'w \<Rightarrow> (string list, 'w) outcome"
  s3fs_rm :: "string \<Rightarrow> bool \<Rightarrow> 'w \<Rightarrow> (unit, 'w) outcome"
  s3fs_open :: "string \<Rightarrow> string \<Rightarrow> 'w \<Rightarrow> (handle, 'w) outcome"
  s3fs_read :: "handle \<Rightarrow> 'w \<Rightarrow> (bytes, 'w) outcome"
  s3fs_write :: "handle \<Rightarrow> bytes \<Rightarrow> 'w \<Rightarrow> (unit, 'w) outcome"
  s3fs_close :: "handle \<Rightarrow> 'w \<Rightarrow> 'w"
  list_objects_v2 :: "string \<Rightarrow> string \<Rightarrow> string \<Rightarrow> 'w \<Rightarrow> (ListObjectsV2, 'w) outcome"
    \<comment> \<open>\<^verbatim>\<open>Bucket\<close>, \<^verbatim>\<open>Delimiter\<close>, \<^verbatim>\<open>Prefix\<close>\<close>

definition S3ObjectStore_exists :: "'w S3Clients \<Rightarrow> string \<Rightarrow> 'w \<Rightarrow> (pyval, 'w) outcome" where
  "S3ObjectStore_exists c path w = and_then (s3fs_exists c path w) (\<lambda>b w1. (Inr (PBool b), w1))"

definition S3ObjectStore_open :: "'w S3Clients \<Rightarrow> string \<Rightarrow> string \<Rightarrow> 'w \<Rightarrow> (pyval, 'w) outcome" where
  "S3ObjectStore_open c file mode w = and_then (s3fs_open c file mode w) (\<lambda>fp w1. (Inr (PHandle fp), w1))"

text \<open>
  \<^verbatim>\<open>with self.open(path, 'rb') as fp: return fp.read()\<close>: the handle is closed when the
  block is left, also by an exception of \<open>read\<close>.
\<close>

definition S3ObjectStore_get_object :: "'w S3Clients \<Rightarrow> string \<Rightarrow> 'w \<Rightarrow> (pyval, 'w) outcome" where
  "S3ObjectStore_get_object c path w =
     and_then (S3ObjectStore_open c path ''rb'' w) (\<lambda>v w1.
       case v of
         PHandle fp \<Rightarrow> (case s3fs_read c fp w1 of
                          (Inl e, w2) \<Rightarrow> (Inl e, s3fs_close c fp w2)
                        | (Inr data, w2) \<Rightarrow> (Inr (PBytes data), s3fs_close c fp w2))
       | _ \<Rightarrow> (Inl AttributeError, w1))"

definition S3ObjectStore_put_object ::
  "'w S3Clients \<Rightarrow> string \<Rightarrow> bytes \<Rightarrow> 'w \<Rightarrow> (pyval, 'w) outcome" where
  "S3ObjectStore_put_object c path data w =
     and_then (S3ObjectStore_open c path ''wb'' w) (\<lambda>v w1.
       case v of
         PHandle fp \<Rightarrow> (case s3fs_write c fp data w1 of
                          (Inl e, w2) \<Rightarrow> (Inl e, s3fs_close c fp w2)
                        | (Inr u, w2) \<Rightarrow> (Inr PNone, s3fs_close c fp w2))
       | _ \<Rightarrow> (Inl AttributeError, w1))"

text \<open>
  \<^verbatim>\<open>_split_path\<close>: \<^verbatim>\<open>assert(path.startswith("s3://"))\<close>, then the text after the scheme is
  split at every \<^verbatim>\<open>"/"\<close>; the first part is the bucket and the rest, joined again, the key.
\<close>

definition S3ObjectStore_split_path :: "string \<Rightarrow> error + (string \<times> string)" where
  "S3ObjectStore_split_path path =
     (if \<not> startswith path ''s3://'' then Inl (AssertionError [])
      else (case split_on CHR ''/'' (drop 5 path) of
              [] \<Rightarrow> Inl (MediumError ''IndexError'')
            | bucket_name # rest \<Rightarrow>
                Inr (bucket_name, if length (bucket_name # rest) > 1 then join_with ''/'' rest else [])))"

text \<open>
  \<^verbatim>\<open>_ls_query(self, path, prefix, recursive=False)\<close>: one native listing call, a refusal
  of a truncated response, then the keys and the common prefixes with one trailing
  \<^verbatim>\<open>"/"\<close> removed and the scheme and bucket put back in front.
\<close>

definition S3ObjectStore_ls_query ::
  "'w S3Clients \<Rightarrow> string \<Rightarrow> string \<Rightarrow> bool \<Rightarrow> 'w \<Rightarrow> (string list, 'w) outcome" where
  "S3ObjectStore_ls_query c path pfx recursive w =
     (case S3ObjectStore_split_path path of
        Inl e \<Rightarrow> (Inl e, w)
      | Inr (bucket, path_key) \<Rightarrow>
          (let delim = (if \<not> recursive then ''/'' else []);
               actual_prefix = path_key @ pfx
           in and_then (list_objects_v2 c bucket delim actual_prefix w) (\<lambda>rsp w1.
                if IsTruncated rsp
                then (Inl (AssertionError ''Truncated responses not supported yet''), w1)
                else
                  (let files = [];
                       files = (case Contents rsp of Some keys \<Rightarrow> files @ keys | None \<Rightarrow> files);
                       files = (case CommonPrefixes rsp of Some ps \<Rightarrow> files @ ps | None \<Rightarrow> files);
                       files = map (\<lambda>f. if endswith f ''/'' then butlast f else f) files
                   in (Inr (map (\<lambda>f. ''s3://'' @ bucket @ ''/'' @ f) files), w1)))))"

text \<open>
  \<^verbatim>\<open>ls\<close>: without a query the s3fs listing, with the scheme put back and sorted. With a
  query the source evaluates \<^verbatim>\<open>sorted(self._ls_query())\<close>: the call passes no argument
  for the required parameters \<^verbatim>\<open>path\<close> and \<^verbatim>\<open>prefix\<close>, so binding the arguments raises
  \<^verbatim>\<open>TypeError\<close> before the body of \<^verbatim>\<open>_ls_query\<close> runs and before anything is sorted.
\<close>

definition S3ObjectStore_ls ::
  "'w S3Clients \<Rightarrow> string \<Rightarrow> ListQuery option \<Rightarrow> 'w \<Rightarrow> (pyval, 'w) outcome" where
  "S3ObjectStore_ls c path query w =
     (case query of
        None \<Rightarrow> and_then (s3fs_ls c path w) (\<lambda>fs w1. (Inr (PList (sort (map (\<lambda>f. ''s3://'' @ f) fs))), w1))
      | Some q \<Rightarrow> (Inl TypeError, w))"

definition S3ObjectStore_rm :: "'w S3Clients \<Rightarrow> string \<Rightarrow> bool \<Rightarrow> 'w \<Rightarrow> (pyval, 'w) outcome" where
  "S3ObjectStore_rm c path recursive w =
     and_then (s3fs_rm c path recursive w) (\<lambda>u w1. (Inr PNone, w1))"

text \<open>
  \<^verbatim>\<open>path_join\<close>: the empty segments are dropped, every segment but the last gets a
  \<^verbatim>\<open>"/"\<close> appended unless it ends with one (the loop over \<^verbatim>\<open>range(len(all_paths)-1)\<close>),
  and the segments are concatenated.
\<close>

definition S3ObjectStore_path_join :: "string \<Rightarrow> string list \<Rightarrow> string" where
  "S3ObjectStore_path_join p paths =
     (let all_paths = [p] @ paths;
          all_paths = filter (\<lambda>p. p \<noteq> []) all_paths;
          all_paths = fold (\<lambda>i ps. if \<not> endswith (ps ! i) ''/'' then ps[i := ps ! i @ ''/''] else ps)
                        [0 ..< length all_paths - 1] all_paths
      in concat all_paths)"

definition S3ObjectStore :: "'w S3Clients \<Rightarrow> 'w ObjectStore" where
  "S3ObjectStore c =
     \<lparr> get_object = S3ObjectStore_get_object c,
       put_object = S3ObjectStore_put_object c,
       ls = S3ObjectStore_ls c,
       rm = S3ObjectStore_rm c,
       exists = S3ObjectStore_exists c,
       open_file = S3ObjectStore_open c,
       path_join = (\<lambda>p paths w. (Inr (PStr (S3ObjectStore_path_join p paths)), w)) \<rparr>"

section \<open>The local backend\<close>

text \<open>
  The two pure functions of \<^verbatim>\<open>os.path\<close> the backend calls, as \<^verbatim>\<open>posixpath\<close> defines
  them. \<^verbatim>\<open>dirname\<close> is the text up to the last \<^verbatim>\<open>"/"\<close>, with the trailing slashes
  removed unless it consists of slashes only; \<^verbatim>\<open>join\<close> restarts at a segment that
  begins with \<^verbatim>\<open>"/"\<close> and otherwise puts one \<^verbatim>\<open>"/"\<close> after a non-empty path that does not
  end with one.
\<close>

definition os_path_dirname :: "string \<Rightarrow> string" where
  "os_path_dirname p =
     (let head = rev (dropWhile (\<lambda>c. c \<noteq> CHR ''/'') (rev p))
      in if head \<noteq> [] \<and> list_ex (\<lambda>c. c \<noteq> CHR ''/'') head
         then rev (dropWhile (\<lambda>c. c = CHR ''/'') (rev head))
         else head)"

definition os_path_join :: "string \<Rightarrow> string list \<Rightarrow> string" where
  "os_path_join a ps =
     fold (\<lambda>b path. if startswith b ''/'' then b
                     else if path = [] \<or> endswith path ''/'' then path @ b
                     else path @ ''/'' @ b) ps a"

text \<open>
  The calls into the operating system, taken as a record: \<^verbatim>\<open>os.path.exists\<close>,
  \<^verbatim>\<open>os.makedirs(name, exist_ok=True)\<close>, \<^verbatim>\<open>os.listdir\<close>, \<^verbatim>\<open>os.remove\<close>,
  \<^verbatim>\<open>shutil.rmtree\<close>, the builtin \<^verbatim>\<open>open\<close> and the methods of the file object it returns.
\<close>

record 'w LocalOS =
  os_path_exists :: "string \<Rightarrow> 'w \<Rightarrow> bool"
  os_makedirs :: "string \<Rightarrow> 'w \<Rightarrow> (unit, 'w) outcome"
  os_listdir :: "string \<Rightarrow> 'w \<Rightarrow> (string list, 'w) outcome"
  os_remove :: "string \<Rightarrow> 'w \<Rightarrow> (unit, 'w) outcome"
  shutil_rmtree :: "string \<Rightarrow> 'w \<Rightarrow> (unit, 'w) outcome"
  builtin_open :: "string \<Rightarrow> string \<Rightarrow> 'w \<Rightarrow> (handle, 'w) outcome"
  file_read :: "handle \<Rightarrow> 'w \<Rightarrow> (bytes, 'w) outcome"
  file_write :: "handle \<Rightarrow> bytes \<Rightarrow> 'w \<Rightarrow> (unit, 'w) outcome"
  file_close :: "handle \<Rightarrow> 'w \<Rightarrow> 'w"

definition LocalObjectStore_exists :: "'w LocalOS \<Rightarrow> string \<Rightarrow> 'w \<Rightarrow> (pyval, 'w) outcome" where
  "LocalObjectStore_exists os path w = (Inr (PBool (os_path_exists os path w)), w)"

text \<open>
  \<^verbatim>\<open>open\<close>: for every mode but \<^verbatim>\<open>'r'\<close>, and a directory part that is neither \<^verbatim>\<open>"/"\<close>
  nor empty, the directory is created first.
\<close>

definition LocalObjectStore_open :: "'w LocalOS \<Rightarrow> string \<Rightarrow> string \<Rightarrow> 'w \<Rightarrow> (pyval, 'w) outcome" where
  "LocalObjectStore_open os file mode w =
     and_then
       (if mode \<noteq> ''r'' \<and> os_path_dirname file \<notin> set [''/'', []]
        then os_makedirs os (os_path_dirname file) w
        else (Inr (), w))
       (\<lambda>u w1. and_then (builtin_open os file mode w1) (\<lambda>fp w2. (Inr (PHandle fp), w2)))"

definition LocalObjectStore_get_object :: "'w LocalOS \<Rightarrow> string \<Rightarrow> 'w \<Rightarrow> (pyval, 'w) outcome" where
  "LocalObjectStore_get_object os path w =
     and_then (LocalObjectStore_open os path ''rb'' w) (\<lambda>v w1.
       case v of
         PHandle fp \<Rightarrow> (case file_read os fp w1 of
                          (Inl e, w2) \<Rightarrow> (Inl e, file_close os fp w2)
                        | (Inr data, w2) \<Rightarrow> (Inr (PBytes data), file_close os fp w2))
       | _ \<Rightarrow> (Inl AttributeError, w1))"

text \<open>
  \<^verbatim>\<open>put_object\<close>: \<^verbatim>\<open>os.makedirs(os.path.dirname(path), exist_ok=True)\<close> comes first and
  has no condition on the directory part; then the file is opened for writing through
  \<^verbatim>\<open>self.open\<close> and the payload written.
\<close>

definition LocalObjectStore_put_object ::
  "'w LocalOS \<Rightarrow> string \<Rightarrow> bytes \<Rightarrow> 'w \<Rightarrow> (pyval, 'w) outcome" where
  "LocalObjectStore_put_object os path data w =
     and_then (os_makedirs os (os_path_dirname path) w) (\<lambda>u w0.
       and_then (LocalObjectStore_open os path ''wb'' w0) (\<lambda>v w1.
         case v of
           PHandle fp \<Rightarrow> (case file_write os fp data w1 of
                            (Inl e, w2) \<Rightarrow> (Inl e, file_close os fp w2)
                          | (Inr u, w2) \<Rightarrow> (Inr PNone, file_close os fp w2))
         | _ \<Rightarrow> (Inl AttributeError, w1)))"

definition LocalObjectStore_path_join :: "string \<Rightarrow> string list \<Rightarrow> string" where
  "LocalObjectStore_path_join p paths = os_path_join p paths"

text \<open>
  \<^verbatim>\<open>ls\<close>: without a query the names of \<^verbatim>\<open>os.listdir\<close>, each joined to the path, sorted.
  With a query the source evaluates \<^verbatim>\<open>sorted(self._ls_query(query))\<close>: the query is
  bound to \<^verbatim>\<open>path\<close> and the required \<^verbatim>\<open>prefix\<close> has no argument, so the call raises
  \<^verbatim>\<open>TypeError\<close> before the body of \<^verbatim>\<open>_ls_query\<close> runs.
\<close>

definition LocalObjectStore_ls ::
  "'w LocalOS \<Rightarrow> string \<Rightarrow> ListQuery option \<Rightarrow> 'w \<Rightarrow> (pyval, 'w) outcome" where
  "LocalObjectStore_ls os path query w =
     (case query of
        None \<Rightarrow> and_then (os_listdir os path w) (\<lambda>names w1.
                  (Inr (PList (sort (map (\<lambda>f. LocalObjectStore_path_join path [f]) names))), w1))
      | Some q \<Rightarrow> (Inl TypeError, w))"

definition LocalObjectStore_rm :: "'w LocalOS \<Rightarrow> string \<Rightarrow> bool \<Rightarrow> 'w \<Rightarrow> (pyval, 'w) outcome" where
  "LocalObjectStore_rm os path recursive w =
     (if recursive then
        (if length path < 5
         then (Inl (AssertionError (''You probably didn't intend to recursively remove folder '' @ path)), w)
         else and_then (shutil_rmtree os path w) (\<lambda>u w1. (Inr PNone, w1)))
      else and_then (os_remove os path w) (\<lambda>u w1. (Inr PNone, w1)))"

definition LocalObjectStore :: "'w LocalOS \<Rightarrow> 'w ObjectStore" where
  "LocalObjectStore os =
     \<lparr> get_object = LocalObjectStore_get_object os,
       put_object = LocalObjectStore_put_object os,
       ls = LocalObjectStore_ls os,
       rm = LocalObjectStore_rm os,
       exists = LocalObjectStore_exists os,
       open_file = LocalObjectStore_open os,
       path_join = (\<lambda>p paths w. (Inr (PStr (LocalObjectStore_path_join p paths)), w)) \<rparr>"

section \<open>The router\<close>

text \<open>
  \<^verbatim>\<open>MultiObjectStore.map_prefix_fs\<close> is a Python dict from an optional prefix to a
  backend. A dict iterates in the order its keys were first inserted, and an assignment
  to a key it already holds replaces the value where the key stands: an association list
  with that update.
\<close>

fun dict_setitem :: "'k \<Rightarrow> 'v \<Rightarrow> ('k \<times> 'v) list \<Rightarrow> ('k \<times> 'v) list" where
  "dict_setitem k v [] = [(k, v)]"
| "dict_setitem k v ((k', v') # d) =
     (if k' = k then (k', v) # d else (k', v') # dict_setitem k v d)"

definition dict_getitem :: "('k \<times> 'v) list \<Rightarrow> 'k \<Rightarrow> error + 'v" where
  "dict_getitem d k = (case map_of d k of None \<Rightarrow> Inl KeyError | Some v \<Rightarrow> Inr v)"

record 'fs MultiObjectStore =
  map_prefix_fs :: "(string option \<times> 'fs) list"

definition MultiObjectStore_init :: "'fs MultiObjectStore" where
  "MultiObjectStore_init = \<lparr> map_prefix_fs = [] \<rparr>"

definition add_fs :: "'fs MultiObjectStore \<Rightarrow> 'fs \<Rightarrow> string option \<Rightarrow> 'fs MultiObjectStore" where
  "add_fs self fs pfx = self \<lparr> map_prefix_fs := dict_setitem pfx fs (map_prefix_fs self) \<rparr>"

text \<open>
  \<^verbatim>\<open>_fs\<close>: the backends of the items whose prefix is not \<^verbatim>\<open>None\<close> and starts the path,
  in the order of the dict; the first of them, or else the item under \<^verbatim>\<open>None\<close>, whose
  absence raises \<^verbatim>\<open>KeyError\<close>.
\<close>

definition MultiObjectStore_fs :: "'fs MultiObjectStore \<Rightarrow> string \<Rightarrow> error + 'fs" where
  "MultiObjectStore_fs self path =
     (let fs_list = concat (map (\<lambda>(pfx, fs). case pfx of
                                                None \<Rightarrow> []
                                              | Some k \<Rightarrow> if startswith path k then [fs] else [])
                               (map_prefix_fs self))
      in if length fs_list > 0 then Inr (fs_list ! 0)
         else dict_getitem (map_prefix_fs self) None)"

definition dispatch ::
  "'w ObjectStore MultiObjectStore \<Rightarrow> string \<Rightarrow> 'w \<Rightarrow>
    ('w ObjectStore \<Rightarrow> 'w \<Rightarrow> (pyval, 'w) outcome) \<Rightarrow> (pyval, 'w) outcome" where
  "dispatch self path w call =
     (case MultiObjectStore_fs self path of Inl e \<Rightarrow> (Inl e, w) | Inr fs \<Rightarrow> call fs w)"

definition MultiObjectStore_put_object ::
  "'w ObjectStore MultiObjectStore \<Rightarrow> string \<Rightarrow> bytes \<Rightarrow> 'w \<Rightarrow> (pyval, 'w) outcome" where
  "MultiObjectStore_put_object self path data w =
     and_then (dispatch self path w (\<lambda>fs. put_object fs path data)) (\<lambda>v w1. (Inr PNone, w1))"

definition MultiObjectStore_get_object ::
  "'w ObjectStore MultiObjectStore \<Rightarrow> string \<Rightarrow> 'w \<Rightarrow> (pyval, 'w) outcome" where
  "MultiObjectStore_get_object self path w = dispatch self path w (\<lambda>fs. get_object fs path)"

definition MultiObjectStore_exists ::
  "'w ObjectStore MultiObjectStore \<Rightarrow> string \<Rightarrow> 'w \<Rightarrow> (pyval, 'w) outcome" where
  "MultiObjectStore_exists self path w = dispatch self path w (\<lambda>fs. exists fs path)"

text \<open>
  \<^verbatim>\<open>def ls(self, path, query=None): return self._fs(path).ls(path)\<close>: the backend is
  called with the path alone, so its own \<^verbatim>\<open>query\<close> parameter takes the default \<^verbatim>\<open>None\<close>.
\<close>

definition MultiObjectStore_ls ::
  "'w ObjectStore MultiObjectStore \<Rightarrow> string \<Rightarrow> ListQuery option \<Rightarrow> 'w \<Rightarrow> (pyval, 'w) outcome" where
  "MultiObjectStore_ls self path query w = dispatch self path w (\<lambda>fs. ls fs path None)"

definition MultiObjectStore_rm ::
  "'w ObjectStore MultiObjectStore \<Rightarrow> string \<Rightarrow> bool \<Rightarrow> 'w \<Rightarrow> (pyval, 'w) outcome" where
  "MultiObjectStore_rm self path recursive w = dispatch self path w (\<lambda>fs. rm fs path recursive)"

definition MultiObjectStore_open ::
  "'w ObjectStore MultiObjectStore \<Rightarrow> string \<Rightarrow> string \<Rightarrow> 'w \<Rightarrow> (pyval, 'w) outcome" where
  "MultiObjectStore_open self file mode w = dispatch self file w (\<lambda>fs. open_file fs file mode)"

definition MultiObjectStore_path_join ::
  "'w ObjectStore MultiObjectStore \<Rightarrow> string \<Rightarrow> string list \<Rightarrow> 'w \<Rightarrow> (pyval, 'w) outcome" where
  "MultiObjectStore_path_join self p paths w = dispatch self p w (\<lambda>fs. path_join fs p paths)"

definition create_multi_object_store ::
  "'w S3Clients \<Rightarrow> 'w LocalOS \<Rightarrow> 'w ObjectStore MultiObjectStore" where
  "create_multi_object_store c os =
     add_fs (add_fs MultiObjectStore_init (S3ObjectStore c) (Some ''s3://'')) (LocalObjectStore os) None"

section \<open>The in-memory backend\<close>

text \<open>
  \<^verbatim>\<open>perPath_data = {}\<close> stands in the class body: the dict is created once, when the class
  is, and bound in the namespace of the class. The class has no \<^verbatim>\<open>__init__\<close> and no
  method assigns an attribute, so an instance starts with an empty namespace of its own
  and \<^verbatim>\<open>self.perPath_data\<close> is looked up in the instance first and in the class next.
  The heap holds the dict objects by address.
\<close>

type_synonym addr = nat

record pyheap =
  dicts :: "addr \<Rightarrow> (string \<rightharpoonup> bytes)"

record pyinstance =
  oid :: nat
  inst_attrs :: "string \<rightharpoonup> addr"

definition InMemoryObjectStore_class_attrs :: "string \<rightharpoonup> addr" where
  "InMemoryObjectStore_class_attrs = [''perPath_data'' \<mapsto> 0]"

definition heap_at_import :: pyheap where
  "heap_at_import = \<lparr> dicts = (\<lambda>a. Map.empty) \<rparr>"

definition InMemoryObjectStore_new :: "nat \<Rightarrow> pyinstance" where
  "InMemoryObjectStore_new n = \<lparr> oid = n, inst_attrs = Map.empty \<rparr>"

definition getattr :: "pyinstance \<Rightarrow> string \<Rightarrow> error + addr" where
  "getattr self name =
     (case inst_attrs self name of
        Some a \<Rightarrow> Inr a
      | None \<Rightarrow> (case InMemoryObjectStore_class_attrs name of
                   Some a \<Rightarrow> Inr a
                 | None \<Rightarrow> Inl AttributeError))"

definition InMemoryObjectStore_get_object :: "pyinstance \<Rightarrow> string \<Rightarrow> pyheap \<Rightarrow> (pyval, pyheap) outcome" where
  "InMemoryObjectStore_get_object self path h =
     (case getattr self ''perPath_data'' of
        Inl e \<Rightarrow> (Inl e, h)
      | Inr a \<Rightarrow> (case dicts h a path of
                   None \<Rightarrow> (Inl KeyError, h)
                 | Some data \<Rightarrow> (Inr (PBytes data), h)))"

definition InMemoryObjectStore_put_object ::
  "pyinstance \<Rightarrow> string \<Rightarrow> bytes \<Rightarrow> pyheap \<Rightarrow> (pyval, pyheap) outcome" where
  "InMemoryObjectStore_put_object self path data h =
     (case getattr self ''perPath_data'' of
        Inl e \<Rightarrow> (Inl e, h)
      | Inr a \<Rightarrow> (Inr PNone, h \<lparr> dicts := (dicts h) (a := (dicts h a) (path \<mapsto> data)) \<rparr>))"

definition InMemoryObjectStore_ls ::
  "pyinstance \<Rightarrow> string \<Rightarrow> ListQuery option \<Rightarrow> pyheap \<Rightarrow> (pyval, pyheap) outcome" where
  "InMemoryObjectStore_ls self path query h = InMemoryObjectStore_get_object self path h"

text \<open>The bodies of \<^verbatim>\<open>rm\<close>, \<^verbatim>\<open>exists\<close>, \<^verbatim>\<open>open\<close> and \<^verbatim>\<open>path_join\<close> are \<^verbatim>\<open>pass\<close>: they return \<^verbatim>\<open>None\<close>.\<close>

definition InMemoryObjectStore_rm :: "pyinstance \<Rightarrow> string \<Rightarrow> bool \<Rightarrow> pyheap \<Rightarrow> (pyval, pyheap) outcome" where
  "InMemoryObjectStore_rm self path recursive h = (Inr PNone, h)"

definition InMemoryObjectStore_exists :: "pyinstance \<Rightarrow> string \<Rightarrow> pyheap \<Rightarrow> (pyval, pyheap) outcome" where
  "InMemoryObjectStore_exists self path h = (Inr PNone, h)"

definition InMemoryObjectStore_open :: "pyinstance \<Rightarrow> string \<Rightarrow> string \<Rightarrow> pyheap \<Rightarrow> (pyval, pyheap) outcome" where
  "InMemoryObjectStore_open self file mode h = (Inr PNone, h)"

definition InMemoryObjectStore_path_join ::
  "pyinstance \<Rightarrow> string \<Rightarrow> string list \<Rightarrow> pyheap \<Rightarrow> (pyval, pyheap) outcome" where
  "InMemoryObjectStore_path_join self p paths h = (Inr PNone, h)"

definition InMemoryObjectStore :: "pyinstance \<Rightarrow> pyheap ObjectStore" where
  "InMemoryObjectStore self =
     \<lparr> get_object = InMemoryObjectStore_get_object self,
       put_object = InMemoryObjectStore_put_object self,
       ls = InMemoryObjectStore_ls self,
       rm = InMemoryObjectStore_rm self,
       exists = InMemoryObjectStore_exists self,
       open_file = InMemoryObjectStore_open self,
       path_join = InMemoryObjectStore_path_join self \<rparr>"

section \<open>Sequences of registrations\<close>

text \<open>
  A router is built by a sequence of \<^verbatim>\<open>add_fs(fs, prefix)\<close> calls on a new
  \<^verbatim>\<open>MultiObjectStore()\<close>. Of such a sequence, \<open>registered_prefixes\<close> are the prefixes
  other than \<^verbatim>\<open>None\<close> in the order of the calls, and \<open>latest_under\<close> is the backend of
  the last call made with a given prefix.
\<close>

fun non_null :: "'a option list \<Rightarrow> 'a list" where
  "non_null [] = []"
| "non_null (None # ks) = non_null ks"
| "non_null (Some k # ks) = k # non_null ks"

definition register_all :: "('fs \<times> string option) list \<Rightarrow> 'fs MultiObjectStore" where
  "register_all regs = foldl (\<lambda>self (fs, pfx). add_fs self fs pfx) MultiObjectStore_init regs"

definition registered_prefixes :: "('fs \<times> string option) list \<Rightarrow> string list" where
  "registered_prefixes regs = non_null (map snd regs)"

definition latest_under :: "('fs \<times> string option) list \<Rightarrow> string option \<Rightarrow> 'fs option" where
  "latest_under regs pfx = map_option fst (find (\<lambda>(fs, k). k = pfx) (rev regs))"

section \<open>Separators in a path\<close>

text \<open>
  \<open>has_double_sep\<close> holds of a string with two \<^verbatim>\<open>"/"\<close> next to each other.
  \<open>with_sep\<close> is what the loop of \<^verbatim>\<open>path_join\<close> does to one segment, and \<open>joined\<close>
  the concatenation in which every segment but the last went through it.
\<close>

fun has_double_sep :: "string \<Rightarrow> bool" where
  "has_double_sep [] = False"
| "has_double_sep [a] = False"
| "has_double_sep (a # b # rest) = ((a = CHR ''/'' \<and> b = CHR ''/'') \<or> has_double_sep (b # rest))"

definition with_sep :: "string \<Rightarrow> string" where
  "with_sep s = (if endswith s ''/'' then s else s @ ''/'')"

fun joined :: "string list \<Rightarrow> string" where
  "joined [] = []"
| "joined [x] = x"
| "joined (x # y # rest) = with_sep x @ joined (y # rest)"

section \<open>A small medium for concrete runs\<close>

text \<open>
  One world with a disk and a bucket, both flat maps from a full path to the bytes
  stored there (a directory is there when something lies below it), and the calls of
  the two collaborators on it. \<open>os_makedirs\<close> refuses the empty name, as
  \<^verbatim>\<open>os.makedirs('', exist_ok=True)\<close> does with \<^verbatim>\<open>FileNotFoundError\<close>; the listing call
  of the bucket returns at most \<open>max_keys\<close> entries and reports the rest as truncated.
\<close>

record fixture =
  disk_files :: "(string \<times> bytes) list"
  bucket_objects :: "(string \<times> bytes) list"

definition as_dir :: "string \<Rightarrow> string" where
  "as_dir d = (if endswith d ''/'' then d else d @ ''/'')"

definition below :: "string \<Rightarrow> (string \<times> bytes) list \<Rightarrow> (string \<times> bytes) list" where
  "below d files = filter (\<lambda>(f, data). startswith f (as_dir d)) files"

definition present :: "string \<Rightarrow> (string \<times> bytes) list \<Rightarrow> bool" where
  "present p files = list_ex (\<lambda>(f, data). f = p \<or> startswith f (as_dir p)) files"

definition child_names :: "string \<Rightarrow> (string \<times> bytes) list \<Rightarrow> string list" where
  "child_names d files =
     remdups (map (\<lambda>(f, data). takeWhile (\<lambda>c. c \<noteq> CHR ''/'') (drop (length (as_dir d)) f)) (below d files))"

definition not_found :: error where
  "not_found = MediumError ''FileNotFoundError''"

definition stored_open ::
  "(string \<times> bytes) list \<Rightarrow> string \<Rightarrow> string \<Rightarrow> error + handle \<times> (string \<times> bytes) list" where
  "stored_open files file mode =
     (if mode = ''r'' \<or> mode = ''rb''
      then (if map_of files file = None then Inl not_found else Inr (Handle file mode, files))
      else Inr (Handle file mode, dict_setitem file [] files))"

definition stored_read :: "(string \<times> bytes) list \<Rightarrow> handle \<Rightarrow> error + bytes" where
  "stored_read files fp =
     (case fp of Handle file mode \<Rightarrow>
        (case map_of files file of None \<Rightarrow> Inl not_found | Some data \<Rightarrow> Inr data))"

definition stored_write :: "(string \<times> bytes) list \<Rightarrow> handle \<Rightarrow> bytes \<Rightarrow> (string \<times> bytes) list" where
  "stored_write files fp data =
     (case fp of Handle file mode \<Rightarrow>
        dict_setitem file ((case map_of files file of None \<Rightarrow> [] | Some old \<Rightarrow> old) @ data) files)"

definition disk_os :: "fixture LocalOS" where
  "disk_os =
     \<lparr> os_path_exists = (\<lambda>p w. present p (disk_files w)),
       os_makedirs = (\<lambda>name w. if name = [] then (Inl not_found, w) else (Inr (), w)),
       os_listdir = (\<lambda>d w. if below d (disk_files w) = [] then (Inl not_found, w)
                            else (Inr (child_names d (disk_files w)), w)),
       os_remove = (\<lambda>p w. if map_of (disk_files w) p = None then (Inl not_found, w)
                           else (Inr (), w \<lparr> disk_files := filter (\<lambda>(f, data). f \<noteq> p) (disk_files w) \<rparr>)),
       shutil_rmtree = (\<lambda>p w. if below p (disk_files w) = [] then (Inl not_found, w)
                               else (Inr (), w \<lparr> disk_files := filter (\<lambda>(f, data). \<not> startswith f (as_dir p)) (disk_files w) \<rparr>)),
       builtin_open = (\<lambda>file mode w. case stored_open (disk_files w) file mode of
                                        Inl e \<Rightarrow> (Inl e, w)
                                      | Inr (fp, files) \<Rightarrow> (Inr fp, w \<lparr> disk_files := files \<rparr>)),
       file_read = (\<lambda>fp w. (stored_read (disk_files w) fp, w)),
       file_write = (\<lambda>fp data w. (Inr (), w \<lparr> disk_files := stored_write (disk_files w) fp data \<rparr>)),
       file_close = (\<lambda>fp w. w) \<rparr>"

definition no_scheme :: "string \<Rightarrow> string" where
  "no_scheme p = (if startswith p ''s3://'' then drop 5 p else p)"

definition bucket_s3 :: "nat \<Rightarrow> fixture S3Clients" where
  "bucket_s3 max_keys =
     \<lparr> s3fs_exists = (\<lambda>p w. (Inr (present (no_scheme p) (bucket_objects w)), w)),
       s3fs_ls = (\<lambda>p w. if below (no_scheme p) (bucket_objects w) = [] then (Inl not_found, w)
                         else (Inr (map (\<lambda>n. as_dir (no_scheme p) @ n) (child_names (no_scheme p) (bucket_objects w))), w)),
       s3fs_rm = (\<lambda>p recursive w.
                    (Inr (), w \<lparr> bucket_objects :=
                       filter (\<lambda>(k, data). k \<noteq> no_scheme p \<and> \<not> (recursive \<and> startswith k (as_dir (no_scheme p))))
                         (bucket_objects w) \<rparr>)),
       s3fs_open = (\<lambda>file mode w. case stored_open (bucket_objects w) (no_scheme file) mode of
                                     Inl e \<Rightarrow> (Inl e, w)
                                   | Inr (fp, files) \<Rightarrow> (Inr fp, w \<lparr> bucket_objects := files \<rparr>)),
       s3fs_read = (\<lambda>fp w. (stored_read (bucket_objects w) fp, w)),
       s3fs_write = (\<lambda>fp data w. (Inr (), w \<lparr> bucket_objects := stored_write (bucket_objects w) fp data \<rparr>)),
       s3fs_close = (\<lambda>fp w. w),
       list_objects_v2 = (\<lambda>bucket delim pfx w.
          (let keys = map (\<lambda>(k, data). drop (length bucket + 1) k)
                        (filter (\<lambda>(k, data). startswith k (bucket @ ''/'' @ pfx)) (bucket_objects w));
               leaf = (\<lambda>k. delim = [] \<or> CHR ''/'' \<notin> set (drop (length pfx) k));
               groups = remdups (map (\<lambda>k. pfx @ takeWhile (\<lambda>c. c \<noteq> CHR ''/'') (drop (length pfx) k) @ ''/'')
                                  (filter (\<lambda>k. \<not> leaf k) keys))
           in (Inr \<lparr> IsTruncated = (max_keys < length (filter leaf keys) + length groups),
                      Contents = (if filter leaf keys = [] then None else Some (take max_keys (filter leaf keys))),
                      CommonPrefixes = (if groups = [] then None else Some (take (max_keys - length (filter leaf keys)) groups)) \<rparr>, w))) \<rparr>"

definition w0 :: fixture where
  "w0 = \<lparr> disk_files = [(''/data/a.txt'', [1]), (''/data/sub/b.txt'', [2])],
          bucket_objects = [(''bkt/x'', [3]), (''bkt/dir/y'', [4])] \<rparr>"

section \<open>Helper facts\<close>

lemmas fixture_defs = disk_os_def bucket_s3_def w0_def below_def present_def child_names_def as_dir_def
  endswith_def not_found_def stored_open_def stored_read_def stored_write_def no_scheme_def

lemmas in_memory_defs = InMemoryObjectStore_get_object_def InMemoryObjectStore_put_object_def
  InMemoryObjectStore_exists_def InMemoryObjectStore_rm_def
  InMemoryObjectStore_new_def getattr_def InMemoryObjectStore_class_attrs_def

lemma startswith_iff_prefix: "startswith s p \<longleftrightarrow> Sublist.prefix p s"
  by (induction s p rule: startswith.induct) auto

lemma exists_list_loop_of_query:
  assumes "\<And>p. p \<in> set paths \<Longrightarrow> exists fs p w = (Inr (answer p), w)"
  shows "exists_list_loop fs paths w = (Inr (filter (\<lambda>p. truthy (answer p)) paths), w)"
  using assms
proof (induction paths)
  case Nil
  show ?case by simp
next
  case (Cons p ps)
  have here: "exists fs p w = (Inr (answer p), w)" using Cons.prems by simp
  have rest: "exists_list_loop fs ps w = (Inr (filter (\<lambda>p. truthy (answer p)) ps), w)"
    using Cons.IH Cons.prems by simp
  show ?case by (simp add: here rest and_then_def)
qed

section \<open>Batch existence\<close>

text \<open>
  Claim C8. For every list of paths, the default \<open>exists_list\<close> returns exactly the
  input paths for which \<open>exists\<close> answers true, in the order of the input. Here
  \<open>exists\<close> is a query: on each path of the list it returns its answer and leaves the
  world as it was. The result is then the input filtered by the truth of the answers,
  which is a subsequence of the input.
\<close>

theorem exists_list_selects_in_order:
  assumes "\<And>p. p \<in> set paths \<Longrightarrow> exists fs p w = (Inr (answer p), w)"
  shows "exists_list fs paths w = (Inr (PList (filter (\<lambda>p. truthy (answer p)) paths)), w)
         \<and> subseq (filter (\<lambda>p. truthy (answer p)) paths) paths"
  using exists_list_loop_of_query [OF assms] by (simp add: exists_list_def and_then_def)

text \<open>
  The local backend on the small disk: of a file, a missing path and a directory, the
  file and the directory are returned, in that order.
\<close>

theorem exists_list_selects_in_order_witness:
  "exists_list (LocalObjectStore disk_os) [''/data/a.txt'', ''/nope'', ''/data''] w0
     = (Inr (PList [''/data/a.txt'', ''/data'']), w0)
   \<and> subseq [''/data/a.txt'', ''/data''] [''/data/a.txt'', ''/nope'', ''/data'']"
proof -
  have h: "\<And>p. p \<in> set [''/data/a.txt'', ''/nope'', ''/data''] \<Longrightarrow>
      exists (LocalObjectStore disk_os) p w0 = (Inr (PBool (os_path_exists disk_os p w0)), w0)"
    by (simp add: LocalObjectStore_def LocalObjectStore_exists_def)
  show ?thesis
    using exists_list_selects_in_order [of "[''/data/a.txt'', ''/nope'', ''/data'']"
        "LocalObjectStore disk_os" w0 "\<lambda>p. PBool (os_path_exists disk_os p w0)", OF h]
    by (simp add: fixture_defs)
qed

section \<open>The in-memory backend\<close>

text \<open>
  Claim C10. The map of the in-memory backend is one attribute of the class: for any two
  instances \<open>a\<close> and \<open>b\<close>, any path and any payload, \<open>get_object\<close> through \<open>b\<close> after
  \<open>put_object\<close> through \<open>a\<close> returns the payload, and in every heap the two instances
  read the same value at every path.
\<close>

theorem in_memory_store_is_shared:
  "fst (InMemoryObjectStore_get_object (InMemoryObjectStore_new b) p
          (snd (InMemoryObjectStore_put_object (InMemoryObjectStore_new a) p data h)))
     = Inr (PBytes data)
   \<and> InMemoryObjectStore_get_object (InMemoryObjectStore_new b) q h
     = InMemoryObjectStore_get_object (InMemoryObjectStore_new a) q h"
  by (simp add: in_memory_defs)

text \<open>
  Claim C7. The claim wants \<open>exists\<close> true after \<open>put_object\<close> and false again after
  \<open>rm\<close>. On a fresh heap, after \<open>put_object\<close> at \<^verbatim>\<open>"a"\<close> the method \<open>exists\<close> returns
  \<^verbatim>\<open>None\<close>, and after \<open>rm\<close> of \<^verbatim>\<open>"a"\<close> the payload is still returned by \<open>get_object\<close>.
\<close>

theorem in_memory_exists_and_rm_do_nothing:
  "fst (InMemoryObjectStore_exists (InMemoryObjectStore_new 0) ''a''
          (snd (InMemoryObjectStore_put_object (InMemoryObjectStore_new 0) ''a'' [1] heap_at_import)))
     = Inr PNone
   \<and> fst (InMemoryObjectStore_get_object (InMemoryObjectStore_new 0) ''a''
          (snd (InMemoryObjectStore_rm (InMemoryObjectStore_new 0) ''a'' False
             (snd (InMemoryObjectStore_put_object (InMemoryObjectStore_new 0) ''a'' [1] heap_at_import)))))
     = Inr (PBytes [1])"
  by (simp add: in_memory_defs)

section \<open>Cloud listing\<close>

text \<open>
  Claim C5. Whenever the native listing call of \<open>_ls_query\<close> answers with a response
  marked as truncated, the listing raises the error
  \<^verbatim>\<open>"Truncated responses not supported yet"\<close> and returns no list.
\<close>

theorem truncated_listing_raises:
  assumes "S3ObjectStore_split_path path = Inr (bucket, key)"
    and "list_objects_v2 c bucket (if recursive then [] else ''/'') (key @ pfx) w = (Inr rsp, w1)"
    and "IsTruncated rsp"
  shows "S3ObjectStore_ls_query c path pfx recursive w
           = (Inl (AssertionError ''Truncated responses not supported yet''), w1)"
  using assms by (cases recursive) (simp_all add: S3ObjectStore_ls_query_def and_then_def)

text \<open>A bucket with two objects behind a listing call that returns one key at a time.\<close>

theorem truncated_listing_raises_witness:
  "S3ObjectStore_ls_query (bucket_s3 1) ''s3://bkt/'' [] True w0
     = (Inl (AssertionError ''Truncated responses not supported yet''), w0)"
proof -
  have a: "S3ObjectStore_split_path ''s3://bkt/'' = Inr (''bkt'', [])"
    by (simp add: S3ObjectStore_split_path_def)
  have b: "list_objects_v2 (bucket_s3 1) ''bkt'' (if True then [] else ''/'') ([] @ []) w0
        = (Inr \<lparr> IsTruncated = True, Contents = Some [''x''], CommonPrefixes = None \<rparr>, w0)"
    by (simp add: fixture_defs)
  have c: "IsTruncated \<lparr> IsTruncated = True, Contents = Some [''x''], CommonPrefixes = None \<rparr>"
    by simp
  show ?thesis using truncated_listing_raises [OF a b c] .
qed

text \<open>
  A response that is not truncated: the keys, then the common prefixes, each without one
  trailing \<^verbatim>\<open>"/"\<close> and behind the scheme and the bucket, in the order of the response.
\<close>

lemma ls_query_untruncated:
  assumes "S3ObjectStore_split_path path = Inr (bucket, key)"
    and "list_objects_v2 c bucket (if recursive then [] else ''/'') (key @ pfx) w = (Inr rsp, w1)"
    and "\<not> IsTruncated rsp"
  shows "S3ObjectStore_ls_query c path pfx recursive w
           = (Inr (map (\<lambda>f. ''s3://'' @ bucket @ ''/'' @ (if endswith f ''/'' then butlast f else f))
                    ((case Contents rsp of None \<Rightarrow> [] | Some keys \<Rightarrow> keys)
                     @ (case CommonPrefixes rsp of None \<Rightarrow> [] | Some ps \<Rightarrow> ps))), w1)"
  using assms
  by (cases recursive)
    (simp_all add: S3ObjectStore_ls_query_def and_then_def Let_def comp_def split: option.splits)

text \<open>
  Claim C3. The claim describes what \<open>ls\<close> with a query returns on the cloud backend.
  For every path, query and world, \<open>ls\<close> with a query raises \<^verbatim>\<open>TypeError\<close> and leaves
  the world as it was: no listing is issued and nothing is returned.
\<close>

theorem cloud_ls_with_query_raises:
  "S3ObjectStore_ls c p (Some q) w = (Inl TypeError, w)"
  by (simp add: S3ObjectStore_ls_def)

section \<open>Recursive removal\<close>

lemma local_rm_guard:
  "length path < 5 \<Longrightarrow> \<exists>msg. LocalObjectStore_rm os path True w = (Inl (AssertionError msg), w)"
  by (simp add: LocalObjectStore_rm_def)

text \<open>
  Claim C2. The claim wants recursive removal of a path shorter than the minimum to
  fail on every backend before the medium is touched. The local backend does
  (\<open>local_rm_guard\<close>); on the cloud backend the recursive removal of \<^verbatim>\<open>"bkt"\<close>, of
  length 3, returns normally and the bucket of the small medium is empty afterwards.
\<close>

theorem cloud_rm_short_path_reaches_bucket:
  "length ''bkt'' < 5
   \<and> S3ObjectStore_rm (bucket_s3 1000) ''bkt'' True w0 = (Inr PNone, w0 \<lparr> bucket_objects := [] \<rparr>)"
  by (simp add: S3ObjectStore_rm_def and_then_def fixture_defs)

section \<open>Round trip\<close>

lemma in_memory_round_trip:
  "fst (InMemoryObjectStore_get_object (InMemoryObjectStore_new a) p
          (snd (InMemoryObjectStore_put_object (InMemoryObjectStore_new a) p data h)))
     = Inr (PBytes data)"
  by (simp add: in_memory_defs)

lemma local_put_object_needs_directory_part:
  assumes "CHR ''/'' \<notin> set path" and "os_makedirs os [] w = (Inl e, w')"
  shows "LocalObjectStore_put_object os path data w = (Inl e, w')"
proof -
  have "dropWhile (\<lambda>c. c \<noteq> CHR ''/'') (rev path) = []"
    using assms(1) by auto
  then have "os_path_dirname path = []" by (simp add: os_path_dirname_def)
  then show ?thesis using assms(2) by (simp add: LocalObjectStore_put_object_def and_then_def)
qed

lemma local_round_trip_on_disk:
  "fst (LocalObjectStore_get_object disk_os ''/data/f.txt''
          (snd (LocalObjectStore_put_object disk_os ''/data/f.txt'' [7] w0)))
     = Inr (PBytes [7])"
  by (simp add: LocalObjectStore_put_object_def LocalObjectStore_get_object_def
      LocalObjectStore_open_def and_then_def os_path_dirname_def fixture_defs)

text \<open>
  Claim C6. The claim wants \<open>get_object\<close> after \<open>put_object\<close> to return the payload on
  every backend. The in-memory backend does (\<open>in_memory_round_trip\<close>). On the local
  backend \<open>put_object\<close> of the relative path \<^verbatim>\<open>"f.txt"\<close> asks \<open>os_makedirs\<close> for the
  empty directory part, which raises, and nothing is written.
\<close>

theorem local_put_object_bare_name_raises:
  "LocalObjectStore_put_object disk_os ''f.txt'' [7] w0 = (Inl (MediumError ''FileNotFoundError''), w0)"
  by (simp add: LocalObjectStore_put_object_def and_then_def os_path_dirname_def fixture_defs)

section \<open>Delegation\<close>

text \<open>
  What each method of the router does once a backend is selected. All but \<open>ls\<close> pass
  their arguments on; \<open>ls\<close> calls the backend without the query.
\<close>

lemma router_delegates:
  assumes "MultiObjectStore_fs self p = Inr fs"
  shows "MultiObjectStore_get_object self p w = get_object fs p w"
    and "MultiObjectStore_exists self p w = exists fs p w"
    and "MultiObjectStore_rm self p recursive w = rm fs p recursive w"
    and "MultiObjectStore_open self p mode w = open_file fs p mode w"
    and "MultiObjectStore_path_join self p paths w = path_join fs p paths w"
    and "MultiObjectStore_ls self p query w = ls fs p None w"
  using assms
  by (simp_all add: MultiObjectStore_get_object_def MultiObjectStore_exists_def
      MultiObjectStore_rm_def MultiObjectStore_open_def MultiObjectStore_path_join_def
      MultiObjectStore_ls_def dispatch_def)

text \<open>
  Claim C4. The claim wants the router's \<open>ls\<close> with a query to equal the selected
  backend's \<open>ls\<close> with that query. For \<^verbatim>\<open>"/data"\<close> the router of
  \<open>create_multi_object_store\<close> selects the local backend; with a query the local
  backend's \<open>ls\<close> raises \<^verbatim>\<open>TypeError\<close>, and the router's \<open>ls\<close> with the same query returns
  the listing of the directory.
\<close>

theorem router_ls_drops_query:
  "MultiObjectStore_fs (create_multi_object_store (bucket_s3 1000) disk_os) ''/data''
     = Inr (LocalObjectStore disk_os)
   \<and> ls (LocalObjectStore disk_os) ''/data'' (Some \<lparr> query_prefix = Some ''a'', query_recursive = Some False \<rparr>) w0
     = (Inl TypeError, w0)
   \<and> MultiObjectStore_ls (create_multi_object_store (bucket_s3 1000) disk_os) ''/data''
       (Some \<lparr> query_prefix = Some ''a'', query_recursive = Some False \<rparr>) w0
     = (Inr (PList [''/data/a.txt'', ''/data/sub'']), w0)"
proof -
  have sel: "MultiObjectStore_fs (create_multi_object_store (bucket_s3 1000) disk_os) ''/data''
     = Inr (LocalObjectStore disk_os)"
    by (simp add: create_multi_object_store_def add_fs_def MultiObjectStore_init_def
        MultiObjectStore_fs_def dict_getitem_def)
  have direct: "ls (LocalObjectStore disk_os) ''/data'' (Some \<lparr> query_prefix = Some ''a'', query_recursive = Some False \<rparr>) w0
     = (Inl TypeError, w0)"
    by (simp add: LocalObjectStore_def LocalObjectStore_ls_def)
  have listing: "LocalObjectStore_ls disk_os ''/data'' None w0 = (Inr (PList [''/data/a.txt'', ''/data/sub'']), w0)"
    by (simp add: LocalObjectStore_ls_def and_then_def LocalObjectStore_path_join_def os_path_join_def fixture_defs)
  have routed: "MultiObjectStore_ls (create_multi_object_store (bucket_s3 1000) disk_os) ''/data''
       (Some \<lparr> query_prefix = Some ''a'', query_recursive = Some False \<rparr>) w0
     = (Inr (PList [''/data/a.txt'', ''/data/sub'']), w0)"
    by (simp add: MultiObjectStore_ls_def dispatch_def sel LocalObjectStore_def listing)
  show ?thesis using sel direct routed by simp
qed

section \<open>Dispatch\<close>

lemma map_of_dict_setitem: "map_of (dict_setitem k v d) = (map_of d)(k \<mapsto> v)"
  by (induction d) (auto simp: fun_eq_iff)

lemma keys_dict_setitem:
  "map fst (dict_setitem k v d) = (if k \<in> set (map fst d) then map fst d else map fst d @ [k])"
  by (induction d) force+

lemma register_all_snoc:
  "register_all (regs @ [(fs, pfx)]) = add_fs (register_all regs) fs pfx"
  by (simp add: register_all_def)

lemma map_of_register_all:
  "map_of (map_prefix_fs (register_all regs)) k = latest_under regs k"
proof (induction regs rule: rev_induct)
  case Nil
  show ?case by (simp add: register_all_def MultiObjectStore_init_def latest_under_def)
next
  case (snoc r regs)
  obtain fs pfx where r: "r = (fs, pfx)" by (cases r)
  have "latest_under (regs @ [r]) k = (if pfx = k then Some fs else latest_under regs k)"
    by (simp add: latest_under_def r)
  then show ?case
    using snoc.IH by (simp add: r register_all_snoc add_fs_def map_of_dict_setitem)
qed

lemma find_snoc:
  "find P (xs @ [k]) = (case find P xs of Some x \<Rightarrow> Some x | None \<Rightarrow> if P k then Some k else None)"
  by (induction xs) auto

lemma find_snoc_member:
  assumes "k \<in> set xs"
  shows "find P (xs @ [k]) = find P xs"
proof (cases "find P xs")
  case None
  then have "\<not> P k" using assms by (auto simp: find_None_iff)
  then show ?thesis using None by (simp add: find_snoc)
next
  case (Some x)
  then show ?thesis by (simp add: find_snoc)
qed

lemma non_null_append: "non_null (xs @ ys) = non_null xs @ non_null ys"
  by (induction xs rule: non_null.induct) auto

lemma set_non_null: "set (non_null ks) = {x. Some x \<in> set ks}"
  by (induction ks rule: non_null.induct) auto

lemma keys_register_all:
  "set (map fst (map_prefix_fs (register_all regs))) = set (map snd regs)"
proof (induction regs rule: rev_induct)
  case Nil
  show ?case by (simp add: register_all_def MultiObjectStore_init_def)
next
  case (snoc r regs)
  obtain fs pfx where r: "r = (fs, pfx)" by (cases r)
  show ?case using snoc.IH
    by (auto simp: r register_all_snoc add_fs_def keys_dict_setitem)
qed

lemma find_prefixes_register_all:
  "find P (non_null (map fst (map_prefix_fs (register_all regs))))
     = find P (registered_prefixes regs)"
proof (induction regs rule: rev_induct)
  case Nil
  show ?case by (simp add: register_all_def MultiObjectStore_init_def registered_prefixes_def)
next
  case (snoc r regs)
  obtain fs pfx where r: "r = (fs, pfx)" by (cases r)
  let ?d = "map_prefix_fs (register_all regs)"
  let ?d' = "map_prefix_fs (register_all (regs @ [r]))"
  have keys': "map fst ?d' = (if pfx \<in> set (map fst ?d) then map fst ?d else map fst ?d @ [pfx])"
    by (simp add: r register_all_snoc add_fs_def keys_dict_setitem)
  have regs': "registered_prefixes (regs @ [r]) = registered_prefixes regs @ non_null [pfx]"
    by (simp add: registered_prefixes_def r non_null_append)
  show ?case
  proof (cases "pfx \<in> set (map fst ?d)")
    case True
    have same: "non_null (map fst ?d') = non_null (map fst ?d)"
      using True keys' by simp
    show ?thesis
    proof (cases pfx)
      case None
      then show ?thesis using same snoc.IH regs' by simp
    next
      case (Some x)
      have "x \<in> set (registered_prefixes regs)"
        using True Some keys_register_all [of regs]
        by (simp add: registered_prefixes_def set_non_null)
      then show ?thesis using same snoc.IH regs' Some by (simp add: find_snoc_member)
    qed
  next
    case False
    have "non_null (map fst ?d') = non_null (map fst ?d) @ non_null [pfx]"
      using False keys' by (simp add: non_null_append)
    then show ?thesis
      using snoc.IH regs' by (cases pfx) (simp_all add: find_snoc)
  qed
qed

lemma first_match:
  "(case concat (map (\<lambda>(pfx, fs). case pfx of None \<Rightarrow> []
                                   | Some k \<Rightarrow> if startswith path k then [fs] else []) d) of
      [] \<Rightarrow> X
    | fs # rest \<Rightarrow> Inr fs)
   = (case find (startswith path) (non_null (map fst d)) of
        Some k \<Rightarrow> dict_getitem d (Some k)
      | None \<Rightarrow> X)"
proof (induction d)
  case Nil
  show ?case by simp
next
  case (Cons kv d)
  obtain pfx fs where kv: "kv = (pfx, fs)" by (cases kv)
  consider (hit) k where "pfx = Some k" "startswith path k"
    | (pass) "\<And>k. pfx = Some k \<Longrightarrow> \<not> startswith path k"
    by (cases pfx) auto
  then show ?case
  proof cases
    case hit
    then show ?thesis by (simp add: kv dict_getitem_def)
  next
    case pass
    have other: "dict_getitem (kv # d) (Some k) = dict_getitem d (Some k)"
      if "find (startswith path) (non_null (map fst d)) = Some k" for k
    proof -
      have "startswith path k" using that by (auto simp: find_Some_iff)
      then have "pfx \<noteq> Some k" using pass by auto
      then show ?thesis by (simp add: kv dict_getitem_def)
    qed
    show ?thesis
    proof (cases "find (startswith path) (non_null (map fst d))")
      case None
      then show ?thesis using Cons.IH pass by (cases pfx) (simp_all add: kv)
    next
      case (Some k)
      then show ?thesis using Cons.IH pass other [OF Some] by (cases pfx) (simp_all add: kv)
    qed
  qed
qed

lemma fs_by_first_matching_key:
  "MultiObjectStore_fs self path =
     (case find (startswith path) (non_null (map fst (map_prefix_fs self))) of
        Some k \<Rightarrow> dict_getitem (map_prefix_fs self) (Some k)
      | None \<Rightarrow> dict_getitem (map_prefix_fs self) None)"
proof -
  define l where "l = concat (map (\<lambda>(pfx, fs). case pfx of None \<Rightarrow> []
                           | Some k \<Rightarrow> if startswith path k then [fs] else []) (map_prefix_fs self))"
  have "MultiObjectStore_fs self path
      = (if length l > 0 then Inr (l ! 0) else dict_getitem (map_prefix_fs self) None)"
    unfolding MultiObjectStore_fs_def Let_def l_def ..
  also have "\<dots> = (case l of [] \<Rightarrow> dict_getitem (map_prefix_fs self) None | fs # rest \<Rightarrow> Inr fs)"
    by (cases l) simp_all
  finally show ?thesis unfolding l_def by (simp only: first_match)
qed

lemmas dispatch_facts = fs_by_first_matching_key find_prefixes_register_all dict_getitem_def
  map_of_register_all

lemma matching_prefix_has_backend:
  assumes "find (startswith path) (registered_prefixes regs) = Some k"
  shows "\<exists>fs. latest_under regs (Some k) = Some fs"
proof -
  have "k \<in> set (registered_prefixes regs)" using assms by (auto simp: find_Some_iff)
  then have "Some k \<in> snd ` set regs" by (simp add: registered_prefixes_def set_non_null)
  then have "find (\<lambda>(fs, k'). k' = Some k) (rev regs) \<noteq> None"
    by (auto simp: find_None_iff)
  then show ?thesis by (auto simp: latest_under_def)
qed

text \<open>
  Claim C1, as the code has it. For every sequence of registrations and every path, the
  router selects the backend of the last registration made under the first registered
  prefix, other than \<^verbatim>\<open>None\<close>, that the path starts with; when no such prefix starts the
  path it selects the backend of the last registration under \<^verbatim>\<open>None\<close>; and when there is
  none it fails with \<^verbatim>\<open>KeyError\<close> and selects nothing. (By \<open>matching_prefix_has_backend\<close>
  the first case always has a backend.)
\<close>

theorem dispatch_selects_latest_under_first_matching_prefix:
  "MultiObjectStore_fs (register_all regs) path =
     (case find (startswith path) (registered_prefixes regs) of
        Some k \<Rightarrow> (case latest_under regs (Some k) of Some fs \<Rightarrow> Inr fs | None \<Rightarrow> Inl KeyError)
      | None \<Rightarrow> (case latest_under regs None of Some fs \<Rightarrow> Inr fs | None \<Rightarrow> Inl KeyError))"
  by (simp add: fs_by_first_matching_key find_prefixes_register_all dict_getitem_def
      map_of_register_all split: option.splits)

text \<open>
  Claim C1, as stated, has the first registered backend whose prefix starts the path
  selected. Two backends registered under \<^verbatim>\<open>"s3://"\<close>: the first registration whose prefix
  starts \<^verbatim>\<open>"s3://x"\<close> is that of backend 1, and the router selects backend 2.
\<close>

theorem dispatch_first_registered_counterexample:
  "MultiObjectStore_fs (register_all [(1::nat, Some ''s3://''), (2, Some ''s3://'')]) ''s3://x'' = Inr 2
   \<and> find (\<lambda>(fs, pfx). case pfx of None \<Rightarrow> False | Some k \<Rightarrow> startswith ''s3://x'' k)
        [(1::nat, Some ''s3://''), (2, Some ''s3://'')] = Some (1, Some ''s3://'')"
  by (simp add: register_all_def add_fs_def MultiObjectStore_init_def MultiObjectStore_fs_def)

text \<open>
  When no prefix is registered twice the two readings agree: the router selects the
  first registered backend whose prefix starts the path, and else the default.
\<close>

lemma find_Some_member: "find P xs = Some x \<Longrightarrow> x \<in> set xs \<and> P x"
  by (induction xs) (auto split: if_splits)

lemma find_unique_key:
  "(fs, k) \<in> set xs \<Longrightarrow> distinct (map snd xs) \<Longrightarrow> find (\<lambda>(f, k'). k' = k) xs = Some (fs, k)"
  by (induction xs) force+

lemma latest_under_unique:
  assumes "(fs, k) \<in> set regs" and "distinct (map snd regs)"
  shows "latest_under regs k = Some fs"
proof -
  have "(fs, k) \<in> set (rev regs)" "distinct (map snd (rev regs))"
    using assms by (simp_all flip: rev_map)
  then show ?thesis by (simp add: latest_under_def find_unique_key)
qed

lemma latest_under_absent:
  "k \<notin> snd ` set regs \<Longrightarrow> latest_under regs k = None"
  by (force simp: latest_under_def find_None_iff)

lemma first_matching_registration:
  "(case find (\<lambda>(fs, pfx). case pfx of None \<Rightarrow> False | Some k \<Rightarrow> startswith path k) regs of
      None \<Rightarrow> find (startswith path) (registered_prefixes regs) = None
    | Some (fs, pfx) \<Rightarrow> (fs, pfx) \<in> set regs
        \<and> map_option Some (find (startswith path) (registered_prefixes regs)) = Some pfx)"
proof (induction regs)
  case Nil
  show ?case by (simp add: registered_prefixes_def)
next
  case (Cons r regs)
  obtain fs pfx where r: "r = (fs, pfx)" by (cases r)
  show ?case
    using Cons.IH
    by (cases pfx) (auto simp: r registered_prefixes_def split: option.splits)
qed

lemma dispatch_first_registered_when_distinct:
  assumes "distinct (map snd regs)"
  shows "MultiObjectStore_fs (register_all regs) path =
     (case find (\<lambda>(fs, pfx). case pfx of None \<Rightarrow> False | Some k \<Rightarrow> startswith path k) regs of
        Some (fs, pfx) \<Rightarrow> Inr fs
      | None \<Rightarrow> (case find (\<lambda>(fs, pfx). pfx = None) regs of
                   Some (fs, pfx) \<Rightarrow> Inr fs
                 | None \<Rightarrow> Inl KeyError))"
proof (cases "find (\<lambda>(fs, pfx). case pfx of None \<Rightarrow> False | Some k \<Rightarrow> startswith path k) regs")
  case None
  then have no_prefix: "find (startswith path) (registered_prefixes regs) = None"
    using first_matching_registration [of path regs] by simp
  show ?thesis
  proof (cases "find (\<lambda>(fs, pfx). pfx = None) regs")
    case no_default: None
    then have "None \<notin> snd ` set regs" by (force simp: find_None_iff)
    then have "latest_under regs None = None" by (rule latest_under_absent)
    then show ?thesis
      using None no_default no_prefix
      by (simp add: dispatch_facts split: option.splits)
  next
    case (Some r)
    obtain fs pfx where r: "r = (fs, pfx)" by (cases r)
    have "pfx = None" "(fs, pfx) \<in> set regs"
      using find_Some_member [OF Some] r by auto
    then have "latest_under regs None = Some fs"
      using latest_under_unique assms by fastforce
    then show ?thesis
      using None Some r no_prefix
      by (simp add: dispatch_facts split: option.splits)
  qed
next
  case (Some r)
  obtain fs pfx where r: "r = (fs, pfx)" by (cases r)
  have in_regs: "(fs, pfx) \<in> set regs"
    and found: "map_option Some (find (startswith path) (registered_prefixes regs)) = Some pfx"
    using first_matching_registration [of path regs] Some r by simp_all
  then obtain k where k: "pfx = Some k" "find (startswith path) (registered_prefixes regs) = Some k"
    by auto
  have "latest_under regs (Some k) = Some fs"
    using latest_under_unique [OF in_regs assms] k by simp
  then show ?thesis
    using Some r k by (simp add: dispatch_facts split: option.splits)
qed

section \<open>Joining path segments\<close>

lemma endswith_slash: "endswith s ''/'' \<longleftrightarrow> s \<noteq> [] \<and> last s = CHR ''/''"
proof (cases s rule: rev_cases)
  case Nil
  then show ?thesis by (simp add: endswith_def)
next
  case (snoc ys y)
  then show ?thesis by (auto simp: endswith_def)
qed

lemma separator_loop:
  assumes "n \<le> length xs"
  shows "fold (\<lambda>i ps. if \<not> endswith (ps ! i) ''/'' then ps[i := ps ! i @ ''/''] else ps) [0 ..< n] xs
           = map with_sep (take n xs) @ drop n xs"
  using assms
proof (induction n)
  case 0
  show ?case by simp
next
  case (Suc n)
  let ?ys = "map with_sep (take n xs) @ drop n xs"
  have n: "n < length xs" using Suc.prems by simp
  have at: "?ys ! n = xs ! n" using n by (simp add: nth_append)
  have upd: "?ys[n := v] = map with_sep (take n xs) @ v # drop (Suc n) xs" for v
    using n by (simp add: list_update_append Cons_nth_drop_Suc [symmetric])
  have same: "?ys = map with_sep (take n xs) @ xs ! n # drop (Suc n) xs"
    using n by (simp add: Cons_nth_drop_Suc)
  have grown: "map with_sep (take (Suc n) xs) = map with_sep (take n xs) @ [with_sep (xs ! n)]"
    using n by (simp add: take_Suc_conv_app_nth)
  have step: "(if \<not> endswith (?ys ! n) ''/'' then ?ys[n := ?ys ! n @ ''/''] else ?ys)
      = map with_sep (take (Suc n) xs) @ drop (Suc n) xs"
  proof (cases "endswith (xs ! n) ''/''")
    case True
    then have "(if \<not> endswith (?ys ! n) ''/'' then ?ys[n := ?ys ! n @ ''/''] else ?ys) = ?ys"
      by (simp only: at if_False not_True_eq_False)
    also have "\<dots> = map with_sep (take n xs) @ xs ! n # drop (Suc n) xs" by (rule same)
    also have "\<dots> = map with_sep (take (Suc n) xs) @ drop (Suc n) xs"
      using True by (simp add: grown with_sep_def)
    finally show ?thesis .
  next
    case False
    then have "(if \<not> endswith (?ys ! n) ''/'' then ?ys[n := ?ys ! n @ ''/''] else ?ys)
        = ?ys[n := xs ! n @ ''/'']"
      by (simp only: at if_True not_False_eq_True)
    also have "\<dots> = map with_sep (take n xs) @ (xs ! n @ ''/'') # drop (Suc n) xs" by (rule upd)
    also have "\<dots> = map with_sep (take (Suc n) xs) @ drop (Suc n) xs"
      using False by (simp add: grown with_sep_def)
    finally show ?thesis .
  qed
  have "fold (\<lambda>i ps. if \<not> endswith (ps ! i) ''/'' then ps[i := ps ! i @ ''/''] else ps) [0 ..< Suc n] xs
      = (if \<not> endswith (?ys ! n) ''/'' then ?ys[n := ?ys ! n @ ''/''] else ?ys)"
    using Suc.IH n by simp
  then show ?case using step by simp
qed

lemma concat_terminated: "concat (map with_sep (take (length xs - 1) xs) @ drop (length xs - 1) xs) = joined xs"
proof (induction xs rule: joined.induct)
  case 1
  show ?case by simp
next
  case (2 x)
  show ?case by simp
next
  case (3 x y rest)
  then show ?case by simp
qed

lemma path_join_joined:
  "S3ObjectStore_path_join p paths = joined (filter (\<lambda>s. s \<noteq> []) (p # paths))"
proof -
  let ?segs = "filter (\<lambda>s. s \<noteq> []) (p # paths)"
  have "S3ObjectStore_path_join p paths
      = concat (fold (\<lambda>i ps. if \<not> endswith (ps ! i) ''/'' then ps[i := ps ! i @ ''/''] else ps)
                  [0 ..< length ?segs - 1] ?segs)"
    by (simp add: S3ObjectStore_path_join_def Let_def)
  also have "\<dots> = concat (map with_sep (take (length ?segs - 1) ?segs) @ drop (length ?segs - 1) ?segs)"
    by (subst separator_loop) simp_all
  also have "\<dots> = joined ?segs" by (rule concat_terminated)
  finally show ?thesis .
qed

lemma double_sep_append:
  "has_double_sep (xs @ ys) \<longleftrightarrow>
     has_double_sep xs \<or> has_double_sep ys \<or> (xs \<noteq> [] \<and> ys \<noteq> [] \<and> last xs = CHR ''/'' \<and> hd ys = CHR ''/'')"
proof (induction xs rule: has_double_sep.induct)
  case 1
  show ?case by simp
next
  case (2 a)
  show ?case by (cases ys) auto
next
  case (3 a b rest)
  then show ?case by auto
qed

lemma with_sep_clean: "\<not> has_double_sep s \<Longrightarrow> \<not> has_double_sep (with_sep s)"
  by (auto simp: with_sep_def double_sep_append endswith_slash)

lemma with_sep_ends: "s \<noteq> [] \<Longrightarrow> with_sep s \<noteq> [] \<and> last (with_sep s) = CHR ''/'' \<and> hd (with_sep s) = hd s"
  by (auto simp: with_sep_def endswith_slash)

lemma joined_hd: "list_all (\<lambda>s. s \<noteq> []) (x # xs) \<Longrightarrow> joined (x # xs) \<noteq> [] \<and> hd (joined (x # xs)) = hd x"
  by (induction "x # xs" arbitrary: x xs rule: joined.induct) (auto simp: with_sep_ends)

lemma joined_clean:
  assumes "list_all (\<lambda>s. s \<noteq> []) segs"
    and "list_all (\<lambda>s. \<not> has_double_sep s) segs"
    and "list_all (\<lambda>s. \<not> startswith s ''/'') (tl segs)"
  shows "\<not> has_double_sep (joined segs)"
  using assms
proof (induction segs rule: joined.induct)
  case 1
  show ?case by simp
next
  case (2 x)
  then show ?case by simp
next
  case (3 x y rest)
  have tail: "\<not> has_double_sep (joined (y # rest))" using 3 by simp
  have y: "y \<noteq> []" "\<not> startswith y ''/''" using 3 by simp_all
  then have "hd y \<noteq> CHR ''/''" by (cases y) auto
  moreover have "hd (joined (y # rest)) = hd y" using joined_hd [of y rest] 3 by simp
  moreover have "\<not> has_double_sep (with_sep x)" using 3 by (simp add: with_sep_clean)
  ultimately show ?case using tail by (simp add: double_sep_append)
qed

text \<open>
  What holds of \<open>path_join\<close> on the cloud backend: a single segment is returned as it
  is; the result depends on the non-empty segments only; a non-empty segment followed by
  a non-empty one stands in the result with one \<^verbatim>\<open>"/"\<close> more when it does not end with
  one, followed by the join of the rest, so no separator is left out; and when no segment
  has a doubled separator and no non-empty segment after the first begins with \<^verbatim>\<open>"/"\<close>,
  the result has none.
\<close>

lemma path_join_single: "S3ObjectStore_path_join a [] = a"
  by (cases a) (simp_all add: path_join_joined)

lemma path_join_ignores_empty:
  assumes "filter (\<lambda>s. s \<noteq> []) (p # paths) = filter (\<lambda>s. s \<noteq> []) (q # qaths)"
  shows "S3ObjectStore_path_join p paths = S3ObjectStore_path_join q qaths"
  using assms by (simp only: path_join_joined)

lemma path_join_junction:
  assumes "a \<noteq> []" and "b \<noteq> []"
  shows "S3ObjectStore_path_join a (b # rest)
           = (if endswith a ''/'' then a else a @ ''/'') @ S3ObjectStore_path_join b rest"
  using assms by (simp add: path_join_joined with_sep_def)

lemma path_join_clean:
  assumes "list_all (\<lambda>s. \<not> has_double_sep s) (p # paths)"
    and "list_all (\<lambda>s. \<not> startswith s ''/'') (tl (filter (\<lambda>s. s \<noteq> []) (p # paths)))"
  shows "\<not> has_double_sep (S3ObjectStore_path_join p paths)"
proof -
  let ?segs = "filter (\<lambda>s. s \<noteq> []) (p # paths)"
  have 1: "list_all (\<lambda>s. s \<noteq> []) ?segs" by (simp add: list_all_iff)
  have 2: "list_all (\<lambda>s. \<not> has_double_sep s) ?segs" using assms(1) by (auto simp: list_all_iff)
  have "\<not> has_double_sep (joined ?segs)" using joined_clean [OF 1 2] assms(2) by blast
  then show ?thesis unfolding path_join_joined .
qed

text \<open>
  Claim C9. The claim wants exactly one \<^verbatim>\<open>"/"\<close> between adjacent non-empty segments and
  no doubled separator out of the join, and the docstring of \<open>path_join\<close> says it adds
  \<^verbatim>\<open>"/"\<close> if necessary. The loop looks at the end of the left segment only: neither
  \<^verbatim>\<open>"a"\<close> nor \<^verbatim>\<open>"/b"\<close> has a doubled separator, a \<^verbatim>\<open>"/"\<close> is appended to \<^verbatim>\<open>"a"\<close> although
  \<^verbatim>\<open>"/b"\<close> brings one, and the join is \<^verbatim>\<open>"a//b"\<close>.
\<close>

theorem path_join_doubles_separator:
  "\<not> has_double_sep ''a'' \<and> \<not> has_double_sep ''/b''
   \<and> S3ObjectStore_path_join ''a'' [''/b''] = ''a//b''
   \<and> has_double_sep (S3ObjectStore_path_join ''a'' [''/b''])"
  by (simp add: S3ObjectStore_path_join_def endswith_def)

end
